theory Spec2Isabelle
  imports Complex_Main
begin

section \<open>Python string primitives\<close>

text \<open>
  Text is modelled over the 8-bit alphabet of \<^typ>\<open>char\<close>. The three characters below
  cannot be written inside a string literal.
\<close>

definition nl :: char where "nl = CHR 0x0A"
definition sq :: char where "sq = CHR 0x27"
definition dq :: char where "dq = CHR 0x22"

text \<open>\<^verbatim>\<open>s.split(c)\<close> for a one-character separator: never the empty list.\<close>

fun split_on :: "char \<Rightarrow> string \<Rightarrow> string list" where
  "split_on c [] = [[]]"
| "split_on c (x # xs) =
     (if x = c then [] # split_on c xs
      else (case split_on c xs of [] \<Rightarrow> [[x]] | l # ls \<Rightarrow> (x # l) # ls))"

text \<open>\<^verbatim>\<open>sep.join(xs)\<close>.\<close>

fun join :: "string \<Rightarrow> string list \<Rightarrow> string" where
  "join sep [] = []"
| "join sep [x] = x"
| "join sep (x # y # ys) = x @ sep @ join sep (y # ys)"

text \<open>
  \<^verbatim>\<open>str.lower()\<close> on the 8-bit range: the ASCII capitals and the Latin-1 capitals
  (0xC0 to 0xDE without the multiplication sign 0xD7) move up by 32.
\<close>

definition lower_char :: "char \<Rightarrow> char" where
  "lower_char c =
     (let n = (of_char c :: nat)
      in if (65 \<le> n \<and> n \<le> 90) \<or> (192 \<le> n \<and> n \<le> 222 \<and> n \<noteq> 215)
         then char_of (n + 32) else c)"

definition lower :: "string \<Rightarrow> string" where
  "lower s = map lower_char s"

definition starts_with :: "string \<Rightarrow> string \<Rightarrow> bool" where
  "starts_with s p = (take (length p) s = p)"

text \<open>\<^verbatim>\<open>sub in s\<close>.\<close>

fun contains :: "string \<Rightarrow> string \<Rightarrow> bool" where
  "contains sub [] = (sub = [])"
| "contains sub (x # xs) = (starts_with (x # xs) sub \<or> contains sub xs)"

text \<open>\<^verbatim>\<open>xs[start:end]\<close> for bounds that are not negative.\<close>

definition py_slice :: "'a list \<Rightarrow> int \<Rightarrow> int \<Rightarrow> 'a list" where
  "py_slice xs start end = take (nat end - nat start) (drop (nat start) xs)"

section \<open>The regular expressions of the source\<close>

text \<open>
  The patterns of the source are sequences of literal text, greedy one-or-more
  repetitions of a character class, and at most one capture group. \<^verbatim>\<open>re.search\<close> is a
  backtracking matcher: leftmost start, and each repetition tries its longest run first.
\<close>

datatype cclass = AnyButNewline | NotChar char | NotSpace

text \<open>
  \<^verbatim>\<open>.\<close> without DOTALL, \<^verbatim>\<open>[^c]\<close>, and \<^verbatim>\<open>[^\s]\<close>; the white space of a str pattern
  in the 8-bit range is 0x09 to 0x0D, 0x1C to 0x20, 0x85 and 0xA0.
\<close>

fun in_class :: "cclass \<Rightarrow> char \<Rightarrow> bool" where
  "in_class AnyButNewline c = (c \<noteq> nl)"
| "in_class (NotChar x) c = (c \<noteq> x)"
| "in_class NotSpace c =
     (let n = (of_char c :: nat)
      in \<not> ((9 \<le> n \<and> n \<le> 13) \<or> (28 \<le> n \<and> n \<le> 32) \<or> n = 133 \<or> n = 160))"

datatype atom = Lit string | Plus cclass | GOpen | GClose

type_synonym pattern = "atom list"

fun first_some :: "'a option list \<Rightarrow> 'a option" where
  "first_some [] = None"
| "first_some (None # xs) = first_some xs"
| "first_some (Some x # xs) = Some x"

text \<open>
  \<open>match_at p s n\<close> matches \<open>p\<close> at the head of \<open>s\<close>, which starts at offset \<open>n\<close> of the
  subject; it returns the end offset and the offsets of the group's parentheses.
\<close>

fun match_at :: "pattern \<Rightarrow> string \<Rightarrow> nat \<Rightarrow> (nat \<times> nat option \<times> nat option) option" where
  "match_at [] s n = Some (n, None, None)"
| "match_at (Lit l # r) s n =
     (if starts_with s l then match_at r (drop (length l) s) (n + length l) else None)"
| "match_at (GOpen # r) s n =
     (case match_at r s n of None \<Rightarrow> None | Some (e, _, c) \<Rightarrow> Some (e, Some n, c))"
| "match_at (GClose # r) s n =
     (case match_at r s n of None \<Rightarrow> None | Some (e, a, _) \<Rightarrow> Some (e, a, Some n))"
| "match_at (Plus cl # r) s n =
     first_some (map (\<lambda>k. match_at r (drop k s) (n + k))
                     (rev [1..<Suc (length (takeWhile (in_class cl) s))]))"

record re_match =
  group0 :: string
  groups :: "string list"
  m_end :: nat

definition match_from :: "pattern \<Rightarrow> string \<Rightarrow> nat \<Rightarrow> re_match option" where
  "match_from p s i =
     (case match_at p (drop i s) i of
        None \<Rightarrow> None
      | Some (e, go, gc) \<Rightarrow>
          Some \<lparr>group0 = take (e - i) (drop i s),
                groups = (case (go, gc) of
                            (Some a, Some b) \<Rightarrow> [take (b - a) (drop a s)]
                          | _ \<Rightarrow> []),
                m_end = e\<rparr>)"

definition re_search :: "pattern \<Rightarrow> string \<Rightarrow> re_match option" where
  "re_search p s = first_some (map (match_from p s) [0..<Suc (length s)])"

datatype error =
    IndexError
  | KeyError string
  | TypeError
  | AttributeError
  | ValueError
  | JSONDecodeError
  | NotRepresentable
  | TransportError string

text \<open>\<^verbatim>\<open>match.group(1)\<close>: IndexError when the pattern has no group.\<close>

definition group1 :: "re_match \<Rightarrow> error + string" where
  "group1 m = (case groups m of [] \<Rightarrow> Inl IndexError | g # _ \<Rightarrow> Inr g)"

section \<open>The log analyzer (analyzer.py)\<close>

datatype FailureType =
    MODULE_NOT_FOUND
  | IMPORT_ERROR
  | MISSING_DEPENDENCY
  | BROKEN_PATH
  | SYNTAX_ERROR
  | UNKNOWN

text \<open>A dict with string keys, in insertion order.\<close>

type_synonym 'v dict = "(string \<times> 'v) list"

fun dict_set :: "'v dict \<Rightarrow> string \<Rightarrow> 'v \<Rightarrow> 'v dict" where
  "dict_set [] k v = [(k, v)]"
| "dict_set ((k', v') # kvs) k v =
     (if k' = k then (k, v) # kvs else (k', v') # dict_set kvs k v)"

record diagnosis =
  failure_type :: FailureType
  error_message :: string
  details :: "string dict"
  confidence :: real
  log_snippet :: string

definition PATTERNS :: "(FailureType \<times> pattern list) list" where
  "PATTERNS =
     [(MODULE_NOT_FOUND,
        [[Lit (''ModuleNotFoundError: No module named '' @ [sq]), GOpen, Plus (NotChar sq), GClose, Lit [sq]],
         [Lit ''ImportError: No module named '', GOpen, Plus NotSpace, GClose],
         [Lit (''cannot import name '' @ [sq]), GOpen, Plus (NotChar sq), GClose, Lit [sq]]]),
      (IMPORT_ERROR,
        [[Lit ''ImportError: '', GOpen, Plus AnyButNewline, GClose],
         [Lit ''from '', GOpen, Plus NotSpace, GClose, Lit '' import '', Plus AnyButNewline, Lit '' failed'']]),
      (MISSING_DEPENDENCY,
        [[Lit ''error: externally-managed-environment''],
         [Lit ''Could not find a version that satisfies the requirement '', GOpen, Plus NotSpace, GClose],
         [Lit ''No matching distribution found for '', GOpen, Plus NotSpace, GClose]]),
      (BROKEN_PATH,
        [[Lit (''FileNotFoundError: [Errno 2] No such file or directory: '' @ [sq]), GOpen, Plus (NotChar sq), GClose, Lit [sq]],
         [Lit (''IOError: [Errno 2] No such file or directory: '' @ [sq]), GOpen, Plus (NotChar sq), GClose, Lit [sq]]]),
      (SYNTAX_ERROR,
        [[Lit ''SyntaxError: '', GOpen, Plus AnyButNewline, GClose],
         [Lit ''IndentationError: '', GOpen, Plus AnyButNewline, GClose]])]"

definition error_keywords :: "string list" where
  "error_keywords = [''error'', ''failed'', ''exception'', ''traceback'', ''modulenotfounderror'']"

definition has_keyword :: "string \<Rightarrow> bool" where
  "has_keyword line = list_ex (\<lambda>keyword. contains keyword (lower line)) error_keywords"

text \<open>The loop of \<^verbatim>\<open>_extract_error_lines\<close> over \<^verbatim>\<open>enumerate(lines)\<close>.\<close>

fun extract_loop :: "string list \<Rightarrow> (nat \<times> string) list \<Rightarrow> string list \<Rightarrow> string list" where
  "extract_loop lines [] error_lines = error_lines"
| "extract_loop lines ((i, line) # rest) error_lines =
     (if has_keyword line
      then (let start = max 0 (int i - 2);
                end = min (int (length lines)) (int i + 6)
            in extract_loop lines rest (error_lines @ py_slice lines start end))
      else extract_loop lines rest error_lines)"

definition extract_error_lines :: "string \<Rightarrow> string list" where
  "extract_error_lines log_content =
     (let lines = split_on nl log_content
      in extract_loop lines (enumerate 0 lines) [])"

text \<open>
  The body of the inner loop at a match: the result is filled in and returned; the
  lookup of group 1 raises where the pattern has none.
\<close>

definition on_match :: "FailureType \<Rightarrow> re_match \<Rightarrow> diagnosis \<Rightarrow> error + diagnosis" where
  "on_match ft m result =
     (let result = result\<lparr>failure_type := ft, error_message := group0 m, confidence := 0.9\<rparr>
      in if ft = MODULE_NOT_FOUND then
           (case group1 m of
              Inl e \<Rightarrow> Inl e
            | Inr g \<Rightarrow> Inr (result\<lparr>details := dict_set (details result) ''missing_module'' g\<rparr>))
         else if ft = BROKEN_PATH then
           (case group1 m of
              Inl e \<Rightarrow> Inl e
            | Inr g \<Rightarrow> Inr (result\<lparr>details := dict_set (details result) ''missing_path'' g\<rparr>))
         else if ft = MISSING_DEPENDENCY then
           (if groups m \<noteq> [] then
              (case group1 m of
                 Inl e \<Rightarrow> Inl e
               | Inr g \<Rightarrow> Inr (result\<lparr>details := dict_set (details result) ''package_name'' g\<rparr>))
            else Inr result)
         else Inr result)"

text \<open>The inner and the outer loop; \<open>None\<close> is falling through without a match.\<close>

fun try_patterns :: "FailureType \<Rightarrow> pattern list \<Rightarrow> string \<Rightarrow> diagnosis \<Rightarrow> (error + diagnosis) option" where
  "try_patterns ft [] log_content result = None"
| "try_patterns ft (p # ps) log_content result =
     (case re_search p log_content of
        Some m \<Rightarrow> Some (on_match ft m result)
      | None \<Rightarrow> try_patterns ft ps log_content result)"

fun try_table :: "(FailureType \<times> pattern list) list \<Rightarrow> string \<Rightarrow> diagnosis \<Rightarrow> (error + diagnosis) option" where
  "try_table [] log_content result = None"
| "try_table ((ft, ps) # rest) log_content result =
     (case try_patterns ft ps log_content result of
        Some r \<Rightarrow> Some r
      | None \<Rightarrow> try_table rest log_content result)"

definition initial_result :: diagnosis where
  "initial_result =
     \<lparr>failure_type = UNKNOWN, error_message = [], details = [], confidence = 0.0, log_snippet = []\<rparr>"

definition analyze :: "string \<Rightarrow> error + diagnosis" where
  "analyze log_content =
     (let result = initial_result;
          error_lines = extract_error_lines log_content
      in if error_lines = [] then Inr result
         else (let result = result\<lparr>log_snippet := join [nl] (take 10 error_lines)\<rparr>
               in case try_table PATTERNS log_content result of
                    Some r \<Rightarrow> r
                  | None \<Rightarrow> Inr (result\<lparr>confidence := 0.3\<rparr>)))"

section \<open>JSON values and \<^verbatim>\<open>json.loads\<close>\<close>

text \<open>
  The values \<^verbatim>\<open>json.loads\<close> returns: None, bool, int, float, str, list and dict (in
  insertion order). A float is kept by the decimal value of its literal; the constants
  NaN, Infinity and -Infinity, which the decoder accepts, are kept by name.
\<close>

datatype json =
    JNull
  | JBool bool
  | JInt int
  | JFloat real
  | JSpecial string
  | JStr string
  | JArr "json list"
  | JObj "(string \<times> json) list"

datatype token =
    TLBrace | TRBrace | TLBrack | TRBrack | TColon | TComma
  | TString string
  | TValue json

definition is_ws :: "char \<Rightarrow> bool" where
  "is_ws c = (c = CHR '' '' \<or> c = CHR 0x09 \<or> c = CHR 0x0A \<or> c = CHR 0x0D)"

definition is_digit :: "char \<Rightarrow> bool" where
  "is_digit c = (48 \<le> (of_char c :: nat) \<and> (of_char c :: nat) \<le> 57)"

definition digits_val :: "string \<Rightarrow> nat" where
  "digits_val ds = foldl (\<lambda>a c. 10 * a + ((of_char c :: nat) - 48)) 0 ds"

definition hex_val :: "char \<Rightarrow> nat option" where
  "hex_val c =
     (let n = (of_char c :: nat)
      in if 48 \<le> n \<and> n \<le> 57 then Some (n - 48)
         else if 65 \<le> n \<and> n \<le> 70 then Some (n - 55)
         else if 97 \<le> n \<and> n \<le> 102 then Some (n - 87)
         else None)"

text \<open>The one-character escapes of a JSON string.\<close>

definition unescape :: "char \<Rightarrow> char option" where
  "unescape e =
     (if e = CHR 0x22 then Some (CHR 0x22)
      else if e = CHR 0x5C then Some (CHR 0x5C)
      else if e = CHR ''/'' then Some (CHR ''/'')
      else if e = CHR ''b'' then Some (CHR 0x08)
      else if e = CHR ''f'' then Some (CHR 0x0C)
      else if e = CHR ''n'' then Some (CHR 0x0A)
      else if e = CHR ''r'' then Some (CHR 0x0D)
      else if e = CHR ''t'' then Some (CHR 0x09)
      else None)"

text \<open>
  The body of a string, after its opening quote: the decoded text, whether every
  \<^verbatim>\<open>\u\<close> escape denotes a character of the 8-bit alphabet (one that does not is
  replaced by a question mark), and the rest of the input. Control characters are
  refused, as the decoder does in its default strict mode.
\<close>

fun scan_string :: "string \<Rightarrow> string \<Rightarrow> bool \<Rightarrow> (string \<times> bool \<times> string) option" where
  "scan_string [] acc ok = None"
| "scan_string (c # cs) acc ok =
     (if c = CHR 0x22 then Some (rev acc, ok, cs)
      else if c = CHR 0x5C then
        (case cs of
           [] \<Rightarrow> None
         | e # cs' \<Rightarrow>
             if e = CHR ''u'' then
               (case cs' of
                  h1 # h2 # h3 # h4 # cs'' \<Rightarrow>
                    (case (hex_val h1, hex_val h2, hex_val h3, hex_val h4) of
                       (Some a, Some b, Some c', Some d) \<Rightarrow>
                         (let n = a * 4096 + b * 256 + c' * 16 + d
                          in if n < 256 then scan_string cs'' (char_of n # acc) ok
                             else scan_string cs'' (CHR ''?'' # acc) False)
                     | _ \<Rightarrow> None)
                | _ \<Rightarrow> None)
             else
               (case unescape e of
                  None \<Rightarrow> None
                | Some x \<Rightarrow> scan_string cs' (x # acc) ok))
      else if (of_char c :: nat) < 32 then None
      else scan_string cs (c # acc) ok)"

text \<open>
  A number at the head of the input, by the decoder's pattern
  \<^verbatim>\<open>-?(0|[1-9][0-9]*)(\.[0-9]+)?([eE][-+]?[0-9]+)?\<close>: an int without fraction and
  exponent, a float otherwise.
\<close>

definition scan_number :: "string \<Rightarrow> (json \<times> string) option" where
  "scan_number cs =
     (let neg = (cs \<noteq> [] \<and> hd cs = CHR ''-'');
          r0 = (if neg then tl cs else cs);
          ds = takeWhile is_digit r0
      in if ds = [] then None
         else
           (let ip = (if hd ds = CHR ''0'' then [CHR ''0''] else ds);
                r1 = drop (length ip) r0;
                fs = (if r1 \<noteq> [] \<and> hd r1 = CHR ''.'' then takeWhile is_digit (tl r1) else []);
                r2 = (if fs = [] then r1 else drop (Suc (length fs)) r1);
                has_e = (r2 \<noteq> [] \<and> (hd r2 = CHR ''e'' \<or> hd r2 = CHR ''E''));
                r3 = (if has_e then tl r2 else r2);
                eneg = (has_e \<and> r3 \<noteq> [] \<and> hd r3 = CHR ''-'');
                esgn = (has_e \<and> r3 \<noteq> [] \<and> (hd r3 = CHR ''-'' \<or> hd r3 = CHR ''+''));
                r4 = (if esgn then tl r3 else r3);
                es = (if has_e then takeWhile is_digit r4 else []);
                r5 = (if es = [] then r2 else drop (length es) r4)
            in if fs = [] \<and> es = [] then
                 Some (JInt (if neg then - int (digits_val ip) else int (digits_val ip)), r5)
               else
                 (let m = real (digits_val ip) + real (digits_val fs) / 10 ^ length fs;
                      v = (if eneg then m / 10 ^ digits_val es else m * 10 ^ digits_val es)
                  in Some (JFloat (if neg then - v else v), r5))))"

text \<open>
  The tokens of a document, and whether all its strings are representable. The
  recursion is on the rest of the input, which every token shortens.
\<close>

function lex :: "string \<Rightarrow> (token list \<times> bool) option" where
  "lex [] = Some ([], True)"
| "lex (c # cs) =
     (let push = (\<lambda>t n. case lex (drop n cs) of
                           None \<Rightarrow> None
                         | Some (ts, ok) \<Rightarrow> Some (t # ts, ok))
      in if is_ws c then lex cs
         else if c = CHR ''{'' then push TLBrace 0
         else if c = CHR ''}'' then push TRBrace 0
         else if c = CHR ''['' then push TLBrack 0
         else if c = CHR '']'' then push TRBrack 0
         else if c = CHR '':'' then push TColon 0
         else if c = CHR '','' then push TComma 0
         else if c = CHR 0x22 then
           (case scan_string cs [] True of
              None \<Rightarrow> None
            | Some (s, ok, rest) \<Rightarrow>
                (case lex (drop (length cs - length rest) cs) of
                   None \<Rightarrow> None
                 | Some (ts, ok') \<Rightarrow> Some (TString s # ts, ok \<and> ok')))
         else if starts_with (c # cs) ''null'' then push (TValue JNull) 3
         else if starts_with (c # cs) ''true'' then push (TValue (JBool True)) 3
         else if starts_with (c # cs) ''false'' then push (TValue (JBool False)) 4
         else
           (case scan_number (c # cs) of
              Some (v, rest) \<Rightarrow> push (TValue v) (length cs - length rest)
            | None \<Rightarrow>
                if starts_with (c # cs) ''NaN'' then push (TValue (JSpecial ''NaN'')) 2
                else if starts_with (c # cs) ''Infinity'' then push (TValue (JSpecial ''Infinity'')) 7
                else if starts_with (c # cs) ''-Infinity'' then push (TValue (JSpecial ''-Infinity'')) 8
                else None))"
  by pat_completeness auto
termination
  by (relation "measure length") auto

text \<open>
  The parser is a pushdown automaton over the tokens: a stack of the open containers
  and what may come next.
\<close>

datatype frame =
    FArr "json list"
  | FObj "(string \<times> json) list"
  | FKey "(string \<times> json) list" string

datatype pstate = PValue | PValueOrEnd | PKeyOrEnd | PKey | PColon | PNext | PDone json

text \<open>A finished value goes into the innermost open container; a key set twice keeps its
  place and takes the later value, as in a dict.\<close>

fun complete_value :: "json \<Rightarrow> frame list \<Rightarrow> (pstate \<times> frame list) option" where
  "complete_value v [] = Some (PDone v, [])"
| "complete_value v (FArr xs # fs) = Some (PNext, FArr (xs @ [v]) # fs)"
| "complete_value v (FKey kvs k # fs) = Some (PNext, FObj (dict_set kvs k v) # fs)"
| "complete_value v (FObj kvs # fs) = None"

fun parse_step :: "pstate \<Rightarrow> frame list \<Rightarrow> token \<Rightarrow> (pstate \<times> frame list) option" where
  "parse_step PValue fs (TString s) = complete_value (JStr s) fs"
| "parse_step PValue fs (TValue v) = complete_value v fs"
| "parse_step PValue fs TLBrack = Some (PValueOrEnd, FArr [] # fs)"
| "parse_step PValue fs TLBrace = Some (PKeyOrEnd, FObj [] # fs)"
| "parse_step PValueOrEnd (FArr xs # fs) TRBrack = complete_value (JArr xs) fs"
| "parse_step PValueOrEnd fs (TString s) = complete_value (JStr s) fs"
| "parse_step PValueOrEnd fs (TValue v) = complete_value v fs"
| "parse_step PValueOrEnd fs TLBrack = Some (PValueOrEnd, FArr [] # fs)"
| "parse_step PValueOrEnd fs TLBrace = Some (PKeyOrEnd, FObj [] # fs)"
| "parse_step PKeyOrEnd (FObj kvs # fs) TRBrace = complete_value (JObj kvs) fs"
| "parse_step PKeyOrEnd (FObj kvs # fs) (TString k) = Some (PColon, FKey kvs k # fs)"
| "parse_step PKey (FObj kvs # fs) (TString k) = Some (PColon, FKey kvs k # fs)"
| "parse_step PColon fs TColon = Some (PValue, fs)"
| "parse_step PNext (FArr xs # fs) TComma = Some (PValue, FArr xs # fs)"
| "parse_step PNext (FArr xs # fs) TRBrack = complete_value (JArr xs) fs"
| "parse_step PNext (FObj kvs # fs) TComma = Some (PKey, FObj kvs # fs)"
| "parse_step PNext (FObj kvs # fs) TRBrace = complete_value (JObj kvs) fs"
| "parse_step _ _ _ = None"

fun parse_tokens :: "pstate \<Rightarrow> frame list \<Rightarrow> token list \<Rightarrow> json option" where
  "parse_tokens (PDone v) fs [] = Some v"
| "parse_tokens st fs [] = None"
| "parse_tokens st fs (t # ts) =
     (case parse_step st fs t of
        None \<Rightarrow> None
      | Some (st', fs') \<Rightarrow> parse_tokens st' fs' ts)"

text \<open>
  \<^verbatim>\<open>json.loads\<close>: JSONDecodeError exactly where the text is not a JSON document;
  NotRepresentable marks a document that decodes to text outside the 8-bit alphabet.
  The interpreter's limit on nesting depth is not modelled.
\<close>

definition json_loads :: "string \<Rightarrow> error + json" where
  "json_loads s =
     (case lex s of
        None \<Rightarrow> Inl JSONDecodeError
      | Some (ts, ok) \<Rightarrow>
          (case parse_tokens PValue [] ts of
             None \<Rightarrow> Inl JSONDecodeError
           | Some v \<Rightarrow> if ok then Inr v else Inl NotRepresentable))"

section \<open>Collaborators and the trace of a run\<close>

text \<open>
  Every call to a collaborator, and every invocation of the analyzer and of the fix
  generator, is recorded with its arguments, in order. A computation takes the trace so
  far and returns the extended trace with its result or the error it raised.
\<close>

datatype call =
    GetPRInfo string string int
  | GetPRChecks string string int
  | GetCheckLogs string string json
  | GetPRDiff string string int
  | GetFileContent string string string json
  | PostComment string string int string
  | ChatCompletion string "(string \<times> string) list" real
  | Analyze string
  | GenerateFix FailureType "string dict" string string

type_synonym 'a run = "call list \<times> (error + 'a)"

text \<open>\<^verbatim>\<open>d.get(k, default)\<close> on a dict.\<close>

definition dict_get :: "'v dict \<Rightarrow> string \<Rightarrow> 'v \<Rightarrow> 'v" where
  "dict_get d k dflt = (case map_of d k of None \<Rightarrow> dflt | Some v \<Rightarrow> v)"

section \<open>The fix generator (fix\_genertor.py)\<close>

text \<open>
  The completion client, as the generator uses it: model, messages (role and content)
  and temperature in, the content of the first choice out.
\<close>

record FixGenerator =
  client :: "string \<Rightarrow> (string \<times> string) list \<Rightarrow> real \<Rightarrow> error + string"
  model :: string

text \<open>\<^verbatim>\<open>repr\<close> of a str and of a dict of strs, on the 8-bit alphabet.\<close>

definition hex_digit :: "nat \<Rightarrow> char" where
  "hex_digit n = (if n < 10 then char_of (48 + n) else char_of (87 + n))"

definition py_printable :: "char \<Rightarrow> bool" where
  "py_printable c =
     (let n = (of_char c :: nat) in (32 \<le> n \<and> n \<le> 126) \<or> (161 \<le> n \<and> n \<noteq> 173))"

definition repr_char :: "char \<Rightarrow> char \<Rightarrow> string" where
  "repr_char q c =
     (if c = CHR 0x5C then [CHR 0x5C, CHR 0x5C]
      else if c = q then [CHR 0x5C, q]
      else if c = CHR 0x0A then [CHR 0x5C, CHR ''n'']
      else if c = CHR 0x0D then [CHR 0x5C, CHR ''r'']
      else if c = CHR 0x09 then [CHR 0x5C, CHR ''t'']
      else if py_printable c then [c]
      else [CHR 0x5C, CHR ''x'', hex_digit ((of_char c :: nat) div 16),
            hex_digit ((of_char c :: nat) mod 16)])"

definition repr_str :: "string \<Rightarrow> string" where
  "repr_str s =
     (let q = (if CHR 0x27 \<in> set s \<and> CHR 0x22 \<notin> set s then CHR 0x22 else CHR 0x27)
      in [q] @ concat (map (repr_char q) s) @ [q])"

definition repr_dict :: "string dict \<Rightarrow> string" where
  "repr_dict d =
     ''{'' @ join '', '' (map (\<lambda>(k, v). repr_str k @ '': '' @ repr_str v) d) @ ''}''"

definition missing_import_prompt :: "string \<Rightarrow> string \<Rightarrow> string \<Rightarrow> string" where
  \<open>missing_import_prompt missing_module file_path file_content = join [nl]
     [''You are a Python code expert. A CI test failed with a ModuleNotFoundError.'',
      '''',
      ''Error: Missing module '' @ [sq] @ missing_module @ [sq],
      ''File: '' @ file_path,
      '''',
      ''Current file content:'',
      ''```python'',
      file_content,
      ''```'',
      '''',
      ''Task: Generate the MINIMAL fix to resolve this import error.'',
      ''- If the module should be imported, add the import statement'',
      ''- If it'' @ [sq] @ ''s a typo, fix the import name'',
      ''- If it'' @ [sq] @ ''s a missing package, indicate that in requirements.txt'',
      '''',
      ''Respond in JSON format:'',
      ''{'',
      ''  "fix_type": "add_import" | "fix_import" | "add_dependency",'',
      ''  "changes": ['',
      ''    {'',
      ''      "file": "path/to/file",'',
      ''      "action": "insert" | "replace" | "delete",'',
      ''      "line_number": 5,'',
      ''      "old_content": "...",'',
      ''      "new_content": "..."'',
      ''    }'',
      ''  ],'',
      ''  "explanation": "Brief explanation of the fix",'',
      ''  "confidence": 0.9'',
      ''}'',
      '''',
      ''Respond ONLY with valid JSON, no other text.'']\<close>

definition broken_path_prompt :: "string \<Rightarrow> string \<Rightarrow> string" where
  \<open>broken_path_prompt missing_path file_content = join [nl]
     [''You are a Python code expert. A file path error occurred.'',
      '''',
      ''Error: File not found '' @ [sq] @ missing_path @ [sq],
      '''',
      ''File content with the broken path:'',
      ''```python'',
      file_content,
      ''```'',
      '''',
      ''Task: Suggest the correct path or identify what file needs to be created.'',
      '''',
      ''Respond in JSON format:'',
      ''{'',
      ''  "fix_type": "fix_path" | "create_file",'',
      ''  "changes": [...],'',
      ''  "explanation": "...",'',
      ''  "confidence": 0.8'',
      ''}'']\<close>

fun failure_type_value :: "FailureType \<Rightarrow> string" where
  "failure_type_value MODULE_NOT_FOUND = ''module_not_found''"
| "failure_type_value IMPORT_ERROR = ''import_error''"
| "failure_type_value MISSING_DEPENDENCY = ''missing_dependency''"
| "failure_type_value BROKEN_PATH = ''broken_path''"
| "failure_type_value SYNTAX_ERROR = ''syntax_error''"
| "failure_type_value UNKNOWN = ''unknown''"

definition generic_prompt :: "FailureType \<Rightarrow> string dict \<Rightarrow> string \<Rightarrow> string" where
  "generic_prompt ft error_details file_content = join [nl]
     [''Analyze this CI failure and suggest a minimal fix.'',
      '''',
      ''Failure Type: '' @ failure_type_value ft,
      ''Error Details: '' @ repr_dict error_details,
      '''',
      ''File content:'',
      ''```python'',
      file_content,
      ''```'',
      '''',
      ''Provide a minimal, surgical fix in JSON format.'']"

text \<open>
  One request to the completion client and the decoding of its answer: the value of
  \<^verbatim>\<open>json.loads\<close> is returned as it is.
\<close>

definition ask :: "FixGenerator \<Rightarrow> (string \<times> string) list \<Rightarrow> call list \<Rightarrow> json run" where
  "ask self messages tr =
     (let tr = tr @ [ChatCompletion (model self) messages 0.3]
      in case client self (model self) messages 0.3 of
           Inl e \<Rightarrow> (tr, Inl e)
         | Inr content \<Rightarrow> (tr, json_loads content))"

definition fix_missing_import ::
  "FixGenerator \<Rightarrow> string dict \<Rightarrow> string \<Rightarrow> string \<Rightarrow> call list \<Rightarrow> json run" where
  "fix_missing_import self error_details file_content file_path tr =
     (let missing_module = dict_get error_details ''missing_module'' [];
          prompt = missing_import_prompt missing_module file_path file_content
      in ask self
           [(''system'', ''You are a code repair assistant. Respond only with valid JSON.''),
            (''user'', prompt)] tr)"

definition fix_missing_dependency :: "string dict \<Rightarrow> call list \<Rightarrow> json run" where
  "fix_missing_dependency error_details tr =
     (let package_name = dict_get error_details ''package_name'' []
      in (tr, Inr (JObj
           [(''fix_type'', JStr ''add_dependency''),
            (''changes'', JArr [JObj
               [(''file'', JStr ''requirements.txt''),
                (''action'', JStr ''insert''),
                (''line_number'', JInt (- 1)),
                (''old_content'', JStr []),
                (''new_content'', JStr (package_name @ [nl]))]]),
            (''explanation'',
               JStr (''Add missing dependency '' @ [sq] @ package_name @ [sq] @ '' to requirements.txt'')),
            (''confidence'', JFloat 0.85)])))"

definition fix_broken_path :: "FixGenerator \<Rightarrow> string dict \<Rightarrow> string \<Rightarrow> call list \<Rightarrow> json run" where
  "fix_broken_path self error_details file_content tr =
     (let missing_path = dict_get error_details ''missing_path'' [];
          prompt = broken_path_prompt missing_path file_content
      in ask self [(''user'', prompt)] tr)"

definition generic_fix ::
  "FixGenerator \<Rightarrow> FailureType \<Rightarrow> string dict \<Rightarrow> string \<Rightarrow> call list \<Rightarrow> json run" where
  "generic_fix self ft error_details file_content tr =
     ask self [(''user'', generic_prompt ft error_details file_content)] tr"

definition generate_fix ::
  "FixGenerator \<Rightarrow> FailureType \<Rightarrow> string dict \<Rightarrow> string \<Rightarrow> string \<Rightarrow> call list \<Rightarrow> json run" where
  "generate_fix self ft error_details file_content file_path tr =
     (if ft = MODULE_NOT_FOUND then fix_missing_import self error_details file_content file_path tr
      else if ft = MISSING_DEPENDENCY then fix_missing_dependency error_details tr
      else if ft = BROKEN_PATH then fix_broken_path self error_details file_content tr
      else generic_fix self ft error_details file_content tr)"

text \<open>A completion client that answers every request with the same text.\<close>

definition canned :: "string \<Rightarrow> string \<Rightarrow> (string \<times> string) list \<Rightarrow> real \<Rightarrow> error + string" where
  "canned text m messages temperature = Inr text"





section \<open>The orchestrator (orchestrator.py)\<close>

text \<open>The tools of the source-control service, by the annotations of \<^verbatim>\<open>GitHubMCP\<close>.\<close>

record GitHubMCP =
  get_pr_info :: "string \<Rightarrow> string \<Rightarrow> int \<Rightarrow> error + json dict"
  get_pr_checks :: "string \<Rightarrow> string \<Rightarrow> int \<Rightarrow> error + json dict list"
  get_check_logs :: "string \<Rightarrow> string \<Rightarrow> json \<Rightarrow> error + string"
  get_pr_diff :: "string \<Rightarrow> string \<Rightarrow> int \<Rightarrow> error + string"
  post_comment :: "string \<Rightarrow> string \<Rightarrow> int \<Rightarrow> string \<Rightarrow> error + json"
  get_file_content :: "string \<Rightarrow> string \<Rightarrow> string \<Rightarrow> json \<Rightarrow> error + string"

text \<open>
  The agent. The text of the report has characters outside the 8-bit alphabet and
  formats floats, so \<^verbatim>\<open>_format_fix_comment\<close> is a field: it takes the diagnosis, the
  fix and the name of the check, and may raise.
\<close>

record DietCodeAgent =
  github :: GitHubMCP
  fix_generator :: FixGenerator
  confidence_threshold :: real
  format_fix_comment :: "diagnosis \<Rightarrow> json \<Rightarrow> json \<Rightarrow> error + string"

text \<open>The value of \<^verbatim>\<open>PATCH_CONFIDENCE_THRESHOLD\<close> when the environment does not set it.\<close>

definition default_confidence_threshold :: real where
  "default_confidence_threshold = 0.7"

datatype pipeline_result =
    NoFailures string
  | LowConfidence diagnosis string
  | FileNotFound diagnosis string
  | Success diagnosis json string

text \<open>\<^verbatim>\<open>d[k]\<close> on a dict, and on any JSON value.\<close>

definition dict_item :: "'v dict \<Rightarrow> string \<Rightarrow> error + 'v" where
  "dict_item d k = (case map_of d k of None \<Rightarrow> Inl (KeyError k) | Some v \<Rightarrow> Inr v)"

fun subscript :: "json \<Rightarrow> string \<Rightarrow> error + json" where
  "subscript (JObj kvs) k = dict_item kvs k"
| "subscript _ k = Inl TypeError"

text \<open>Whether a value can be formatted with \<^verbatim>\<open>:.0%\<close>: numbers can.\<close>

fun format_percent_error :: "json \<Rightarrow> error option" where
  "format_percent_error (JInt i) = None"
| "format_percent_error (JFloat x) = None"
| "format_percent_error (JSpecial s) = None"
| "format_percent_error (JBool b) = None"
| "format_percent_error (JStr s) = Some ValueError"
| "format_percent_error _ = Some TypeError"

text \<open>
  \<^verbatim>\<open>re.findall\<close> from offset \<open>pos\<close>: the group of each match when the pattern has one,
  the whole match otherwise; the scan goes on where the match ended.
\<close>

function re_findall :: "pattern \<Rightarrow> string \<Rightarrow> nat \<Rightarrow> string list" where
  "re_findall p s pos =
     (if length s < pos then []
      else (case first_some (map (match_from p s) [pos..<Suc (length s)]) of
              None \<Rightarrow> []
            | Some m \<Rightarrow>
                (case groups m of [] \<Rightarrow> group0 m | g # _ \<Rightarrow> g)
                  # re_findall p s (max (Suc pos) (m_end m))))"
  by pat_completeness auto
termination
  by (relation "measure (\<lambda>(p, s, pos). Suc (length s) - pos)") auto

text \<open>The patterns \<^verbatim>\<open>\+\+\+ b/(.+\.py)\<close> and \<^verbatim>\<open>File "([^"]+\.py)"\<close>.\<close>

definition DIFF_FILE :: pattern where
  "DIFF_FILE = [Lit ''+++ b/'', GOpen, Plus AnyButNewline, Lit ''.py'', GClose]"

definition TRACE_FILE :: pattern where
  "TRACE_FILE = [Lit (''File '' @ [dq]), GOpen, Plus (NotChar dq), Lit ''.py'', GClose, Lit [dq]]"

text \<open>\<^verbatim>\<open>s.lstrip(chars)\<close>: every leading character that is in \<open>chars\<close> goes.\<close>

definition lstrip :: "string \<Rightarrow> string \<Rightarrow> string" where
  "lstrip chars s = dropWhile (\<lambda>c. c \<in> set chars) s"

definition stack_trace_file :: "diagnosis \<Rightarrow> (error + string option)" where
  "stack_trace_file d =
     (let stack_trace = log_snippet d
      in case re_search TRACE_FILE stack_trace of
           Some file_match \<Rightarrow>
             (case group1 file_match of
                Inl e \<Rightarrow> Inl e
              | Inr g \<Rightarrow> Inr (Some (lstrip ''./'' g)))
         | None \<Rightarrow> Inr None)"

definition locate_affected_file ::
  "DietCodeAgent \<Rightarrow> string \<Rightarrow> string \<Rightarrow> int \<Rightarrow> diagnosis \<Rightarrow> call list \<Rightarrow> string option run" where
  "locate_affected_file self owner repo pr_number d tr =
     (if map_of (details d) ''missing_module'' \<noteq> None then
        (let tr = tr @ [GetPRDiff owner repo pr_number]
         in case get_pr_diff (github self) owner repo pr_number of
              Inl e \<Rightarrow> (tr, Inl e)
            | Inr diff \<Rightarrow>
                (case re_findall DIFF_FILE diff 0 of
                   f # _ \<Rightarrow> (tr, Inr (Some f))
                 | [] \<Rightarrow> (tr, stack_trace_file d)))
      else (tr, stack_trace_file d))"

text \<open>Steps 6 to 8 and the result, once the file is located.\<close>

definition repair ::
  "DietCodeAgent \<Rightarrow> string \<Rightarrow> string \<Rightarrow> int \<Rightarrow> json dict \<Rightarrow> json \<Rightarrow> diagnosis \<Rightarrow> string
     \<Rightarrow> call list \<Rightarrow> pipeline_result run" where
  "repair self owner repo pr_number pr_info check_name d affected_file tr =
     (case dict_item pr_info ''head'' of
        Inl e \<Rightarrow> (tr, Inl e)
      | Inr head \<Rightarrow>
     (case subscript head ''ref'' of
        Inl e \<Rightarrow> (tr, Inl e)
      | Inr pr_head_ref \<Rightarrow>
     (let tr = tr @ [GetFileContent owner repo affected_file pr_head_ref]
      in case get_file_content (github self) owner repo affected_file pr_head_ref of
        Inl e \<Rightarrow> (tr, Inl e)
      | Inr file_content \<Rightarrow>
     (case generate_fix (fix_generator self) (failure_type d) (details d) file_content affected_file
             (tr @ [GenerateFix (failure_type d) (details d) file_content affected_file]) of
        (tr, Inl e) \<Rightarrow> (tr, Inl e)
      | (tr, Inr fix) \<Rightarrow>
     (case subscript fix ''fix_type'' of
        Inl e \<Rightarrow> (tr, Inl e)
      | Inr fix_type \<Rightarrow>
     (case subscript fix ''confidence'' of
        Inl e \<Rightarrow> (tr, Inl e)
      | Inr fix_confidence \<Rightarrow>
     (case format_percent_error fix_confidence of
        Some e \<Rightarrow> (tr, Inl e)
      | None \<Rightarrow>
     (case format_fix_comment self d fix check_name of
        Inl e \<Rightarrow> (tr, Inl e)
      | Inr comment_body \<Rightarrow>
     (let tr = tr @ [PostComment owner repo pr_number comment_body]
      in case post_comment (github self) owner repo pr_number comment_body of
        Inl e \<Rightarrow> (tr, Inl e)
      | Inr ack \<Rightarrow> (tr, Inr (Success d fix affected_file)))))))))))"

text \<open>\<^verbatim>\<open>process_pr_failure\<close>; the prints of the source cannot raise up to step 5.\<close>

definition process_pr_failure ::
  "DietCodeAgent \<Rightarrow> string \<Rightarrow> string \<Rightarrow> int \<Rightarrow> pipeline_result run" where
  "process_pr_failure self owner repo pr_number =
     (let tr = [GetPRInfo owner repo pr_number]
      in case get_pr_info (github self) owner repo pr_number of
        Inl e \<Rightarrow> (tr, Inl e)
      | Inr pr_info \<Rightarrow>
     (let tr = tr @ [GetPRChecks owner repo pr_number]
      in case get_pr_checks (github self) owner repo pr_number of
        Inl e \<Rightarrow> (tr, Inl e)
      | Inr check_runs \<Rightarrow>
     (let failed_checks = filter (\<lambda>c. map_of c ''conclusion'' = Some (JStr ''failure'')) check_runs
      in case failed_checks of
        [] \<Rightarrow> (tr, Inr (NoFailures ''No failed CI checks found''))
      | check # _ \<Rightarrow>
     (case dict_item check ''id'' of
        Inl e \<Rightarrow> (tr, Inl e)
      | Inr check_id \<Rightarrow>
     (case dict_item check ''name'' of
        Inl e \<Rightarrow> (tr, Inl e)
      | Inr check_name \<Rightarrow>
     (let tr = tr @ [GetCheckLogs owner repo check_id]
      in case get_check_logs (github self) owner repo check_id of
        Inl e \<Rightarrow> (tr, Inl e)
      | Inr logs \<Rightarrow>
     (let tr = tr @ [Analyze logs]
      in case analyze logs of
        Inl e \<Rightarrow> (tr, Inl e)
      | Inr d \<Rightarrow>
          if confidence d < confidence_threshold self then
            (tr, Inr (LowConfidence d ''Unable to confidently diagnose the failure''))
          else
     (case locate_affected_file self owner repo pr_number d tr of
        (tr, Inl e) \<Rightarrow> (tr, Inl e)
      | (tr, Inr None) \<Rightarrow> (tr, Inr (FileNotFound d ''Could not locate the affected file''))
      | (tr, Inr (Some affected_file)) \<Rightarrow>
          if affected_file = [] then
            (tr, Inr (FileNotFound d ''Could not locate the affected file''))
          else repair self owner repo pr_number pr_info check_name d affected_file tr))))))))"

definition matching_categories :: "string \<Rightarrow> FailureType list" where
  "matching_categories log_content =
     map fst (filter (\<lambda>(ft, ps). list_ex (\<lambda>p. re_search p log_content \<noteq> None) ps) PATTERNS)"

definition first_match :: "pattern list \<Rightarrow> string \<Rightarrow> re_match option" where
  "first_match ps log_content = first_some (map (\<lambda>p. re_search p log_content) ps)"

definition window :: "string list \<Rightarrow> nat \<Rightarrow> string list" where
  "window lines i =
     map (\<lambda>j. lines ! j) (filter (\<lambda>j. int i - 2 \<le> int j \<and> int j < int i + 6) [0..<length lines])"

definition context_lines :: "string \<Rightarrow> string list" where
  "context_lines log_content =
     (let lines = split_on nl log_content
      in concat (map (window lines) (filter (\<lambda>i. has_keyword (lines ! i)) [0..<length lines])))"


section \<open>Test doubles\<close>

text \<open>
  A source-control service that answers every call with a fixed value, as the mocks of
  the test suite do, and an agent over it whose completion service answers with a fixed
  text and whose threshold is the default.
\<close>

definition fake_github ::
  "json dict \<Rightarrow> json dict list \<Rightarrow> string \<Rightarrow> string \<Rightarrow> string \<Rightarrow> GitHubMCP" where
  "fake_github pr_info check_runs logs diff file_content =
     \<lparr>get_pr_info = (\<lambda>owner repo pr_number. Inr pr_info),
      get_pr_checks = (\<lambda>owner repo pr_number. Inr check_runs),
      get_check_logs = (\<lambda>owner repo check_id. Inr logs),
      get_pr_diff = (\<lambda>owner repo pr_number. Inr diff),
      post_comment = (\<lambda>owner repo pr_number body. Inr JNull),
      get_file_content = (\<lambda>owner repo path ref. Inr file_content)\<rparr>"

definition fake_agent :: "GitHubMCP \<Rightarrow> string \<Rightarrow> DietCodeAgent" where
  "fake_agent gh answer =
     \<lparr>github = gh,
      fix_generator = \<lparr>client = canned answer, model = ''gpt-4-turbo-preview''\<rparr>,
      confidence_threshold = default_confidence_threshold,
      format_fix_comment = (\<lambda>d fix check_name. Inr ''report'')\<rparr>"

section \<open>Properties of the matcher and the analyzer\<close>

lemma first_some_None_iff: "first_some xs = None \<longleftrightarrow> (\<forall>x \<in> set xs. x = None)"
  by (induction xs rule: first_some.induct) auto

lemma first_some_mem: "first_some xs = Some x \<Longrightarrow> Some x \<in> set xs"
  by (induction xs rule: first_some.induct) auto

lemma try_patterns_eq:
  "try_patterns ft ps log_content r = map_option (\<lambda>m. on_match ft m r) (first_match ps log_content)"
  by (induction ps) (auto simp: first_match_def split: option.splits)

lemma first_match_None_iff:
  "first_match ps log_content = None \<longleftrightarrow> \<not> list_ex (\<lambda>p. re_search p log_content \<noteq> None) ps"
  by (auto simp: first_match_def first_some_None_iff list_ex_iff)

lemma first_match_mem:
  "first_match ps log_content = Some m \<Longrightarrow> \<exists>p \<in> set ps. re_search p log_content = Some m"
proof -
  assume "first_match ps log_content = Some m"
  then have "Some m \<in> set (map (\<lambda>p. re_search p log_content) ps)"
    unfolding first_match_def by (rule first_some_mem)
  then show ?thesis by force
qed

lemma try_table_None:
  "filter (\<lambda>(ft, ps). list_ex (\<lambda>p. re_search p log_content \<noteq> None) ps) tbl = [] \<Longrightarrow>
   try_table tbl log_content r = None"
proof (induction tbl)
  case Nil
  then show ?case by simp
next
  case (Cons a tbl)
  obtain ft ps where a: "a = (ft, ps)" by (cases a)
  from Cons.prems a have no: "\<not> list_ex (\<lambda>p. re_search p log_content \<noteq> None) ps"
    and rest: "filter (\<lambda>(ft, ps). list_ex (\<lambda>p. re_search p log_content \<noteq> None) ps) tbl = []"
    by (auto split: if_splits)
  from no have "first_match ps log_content = None" by (simp add: first_match_None_iff)
  with Cons.IH [OF rest] a show ?case by (simp add: try_patterns_eq)
qed

lemma try_table_first:
  "filter (\<lambda>(ft, ps). list_ex (\<lambda>p. re_search p log_content \<noteq> None) ps) tbl = (ft, ps) # rest \<Longrightarrow>
   \<exists>m. first_match ps log_content = Some m \<and> try_table tbl log_content r = Some (on_match ft m r)"
proof (induction tbl)
  case Nil
  then show ?case by simp
next
  case (Cons a tbl)
  obtain ft' ps' where a: "a = (ft', ps')" by (cases a)
  show ?case
  proof (cases "list_ex (\<lambda>p. re_search p log_content \<noteq> None) ps'")
    case True
    with Cons.prems a have eq: "ft' = ft" "ps' = ps" by auto
    from True obtain m where "first_match ps' log_content = Some m"
      using first_match_None_iff [of ps' log_content] by (cases "first_match ps' log_content") auto
    with a eq show ?thesis by (simp add: try_patterns_eq)
  next
    case False
    with Cons.prems a
    have rest: "filter (\<lambda>(ft, ps). list_ex (\<lambda>p. re_search p log_content \<noteq> None) ps) tbl = (ft, ps) # rest"
      by simp
    from False have "first_match ps' log_content = None" by (simp add: first_match_None_iff)
    with Cons.IH [OF rest] a show ?thesis by (simp add: try_patterns_eq)
  qed
qed

text \<open>Offsets and groups of a match.\<close>

lemma match_at_facts:
  "match_at p s n = Some (e, go, gc) \<Longrightarrow>
     n \<le> e \<and> e \<le> n + length s \<and> (go \<noteq> None \<longleftrightarrow> GOpen \<in> set p) \<and> (gc \<noteq> None \<longleftrightarrow> GClose \<in> set p)"
proof (induction p s n arbitrary: e go gc rule: match_at.induct)
  case (1 s n)
  then show ?case by simp
next
  case (2 l r s n)
  from "2.prems" have sw: "starts_with s l"
    and m: "match_at r (drop (length l) s) (n + length l) = Some (e, go, gc)"
    by (auto split: if_splits)
  from sw have "length (take (length l) s) = length l" by (simp add: starts_with_def)
  then have len: "length l \<le> length s" by simp
  from "2.IH" [OF sw m] len show ?case by auto
next
  case (3 r s n)
  then show ?case by (fastforce split: option.splits)
next
  case (4 r s n)
  then show ?case by (fastforce split: option.splits)
next
  case (5 cl r s n)
  from "5.prems" have "Some (e, go, gc) \<in> set (map (\<lambda>k. match_at r (drop k s) (n + k))
                     (rev [1..<Suc (length (takeWhile (in_class cl) s))]))"
    by (auto dest!: first_some_mem)
  then obtain k where k: "1 \<le> k" "k \<le> length (takeWhile (in_class cl) s)"
    and m: "match_at r (drop k s) (n + k) = Some (e, go, gc)"
    by auto
  from k have ks: "k \<le> length s" using length_takeWhile_le [of "in_class cl" s] by linarith
  from k have kin: "k \<in> set (rev [1..<Suc (length (takeWhile (in_class cl) s))])" by auto
  from "5.IH" [OF kin m] have
    "n + k \<le> e \<and> e \<le> n + k + length (drop k s) \<and> (go \<noteq> None \<longleftrightarrow> GOpen \<in> set r) \<and> (gc \<noteq> None \<longleftrightarrow> GClose \<in> set r)"
    by simp
  with ks show ?case by auto
qed


lemma re_search_from: "re_search p s = Some m \<Longrightarrow> \<exists>i \<le> length s. match_from p s i = Some m"
proof -
  assume "re_search p s = Some m"
  then have "Some m \<in> set (map (match_from p s) [0..<Suc (length s)])"
    unfolding re_search_def by (rule first_some_mem)
  then obtain i where "i \<in> set [0..<Suc (length s)]" and "Some m = match_from p s i"
    unfolding set_map by blast
  then show ?thesis by (intro exI [of _ i]) auto
qed

lemma re_search_groups:
  assumes "re_search p s = Some m" and "GOpen \<in> set p" and "GClose \<in> set p"
  shows "groups m \<noteq> []"
proof -
  from assms(1) obtain i where "match_from p s i = Some m" using re_search_from by blast
  then obtain e go gc where ma: "match_at p (drop i s) i = Some (e, go, gc)"
    and g: "groups m = (case (go, gc) of (Some a, Some b) \<Rightarrow> [take (b - a) (drop a s)] | _ \<Rightarrow> [])"
    by (auto simp: match_from_def split: option.splits)
  from match_at_facts [OF ma] assms(2,3) obtain a b where "go = Some a" "gc = Some b" by auto
  with g show ?thesis by simp
qed

lemma re_search_no_groups:
  assumes "re_search p s = Some m" and "GOpen \<notin> set p"
  shows "groups m = []"
proof -
  from assms(1) obtain i where "match_from p s i = Some m" using re_search_from by blast
  then obtain e go gc where ma: "match_at p (drop i s) i = Some (e, go, gc)"
    and g: "groups m = (case (go, gc) of (Some a, Some b) \<Rightarrow> [take (b - a) (drop a s)] | _ \<Rightarrow> [])"
    by (auto simp: match_from_def split: option.splits)
  from match_at_facts [OF ma] assms(2) have "go = None" by auto
  with g show ?thesis by simp
qed

lemma re_search_group0:
  assumes "re_search (Lit l # r) s = Some m" and "l \<noteq> []"
  shows "group0 m \<noteq> []"
proof -
  from assms(1) obtain i where "match_from (Lit l # r) s i = Some m" using re_search_from by blast
  then obtain e go gc where ma: "match_at (Lit l # r) (drop i s) i = Some (e, go, gc)"
    and g: "group0 m = take (e - i) (drop i s)"
    by (auto simp: match_from_def split: option.splits)
  from ma have sw: "starts_with (drop i s) l"
    and mr: "match_at r (drop (length l) (drop i s)) (i + length l) = Some (e, go, gc)"
    by (auto split: if_splits)
  from match_at_facts [OF mr] have "i + length l \<le> e" by simp
  with assms(2) have pos: "0 < e - i" by (cases l) auto
  from sw assms(2) have "drop i s \<noteq> []" by (auto simp: starts_with_def)
  with pos g show ?thesis by (cases "drop i s") auto
qed

lemma PATTERNS_groups:
  "(ft, ps) \<in> set PATTERNS \<Longrightarrow> p \<in> set ps \<Longrightarrow> ft = MODULE_NOT_FOUND \<or> ft = BROKEN_PATH \<Longrightarrow>
   GOpen \<in> set p \<and> GClose \<in> set p"
  by (auto simp: PATTERNS_def)

lemma PATTERNS_literal:
  "(ft, ps) \<in> set PATTERNS \<Longrightarrow> p \<in> set ps \<Longrightarrow> \<exists>l r. p = Lit l # r \<and> l \<noteq> []"
  by (auto simp: PATTERNS_def)

lemma PATTERNS_not_unknown: "(ft, ps) \<in> set PATTERNS \<Longrightarrow> ft \<noteq> UNKNOWN"
  by (auto simp: PATTERNS_def)

lemma on_match_groups:
  assumes "ft = MODULE_NOT_FOUND \<or> ft = BROKEN_PATH \<Longrightarrow> groups m \<noteq> []"
  shows "\<exists>d. on_match ft m r = Inr d \<and> failure_type d = ft \<and> error_message d = group0 m
            \<and> confidence d = 0.9 \<and> log_snippet d = log_snippet r"
  using assms by (cases "groups m") (auto simp: on_match_def group1_def Let_def)


lemma PATTERNS_distinct: "distinct (map fst PATTERNS)"
  by (simp add: PATTERNS_def)

lemma analyze_no_lines:
  "extract_error_lines log_content = [] \<Longrightarrow> analyze log_content = Inr initial_result"
  by (simp add: analyze_def)

lemma analyze_no_match:
  assumes "extract_error_lines log_content \<noteq> []" and "matching_categories log_content = []"
  shows "analyze log_content =
           Inr (initial_result\<lparr>log_snippet := join [nl] (take 10 (extract_error_lines log_content)),
                               confidence := 0.3\<rparr>)"
proof -
  from assms(2) have "filter (\<lambda>(ft, ps). list_ex (\<lambda>p. re_search p log_content \<noteq> None) ps) PATTERNS = []"
    by (simp add: matching_categories_def)
  then have "try_table PATTERNS log_content r = None" for r by (rule try_table_None)
  with assms(1) show ?thesis by (simp add: analyze_def Let_def)
qed

lemma analyze_match:
  assumes "extract_error_lines log_content \<noteq> []" and "matching_categories log_content = ft # rest"
  shows "\<exists>ps m d. map_of PATTERNS ft = Some ps \<and> first_match ps log_content = Some m
            \<and> analyze log_content = Inr d \<and> failure_type d = ft \<and> ft \<noteq> UNKNOWN
            \<and> error_message d = group0 m \<and> error_message d \<noteq> [] \<and> confidence d = 0.9
            \<and> log_snippet d = join [nl] (take 10 (extract_error_lines log_content))"
proof -
  let ?P = "\<lambda>(ft, ps). list_ex (\<lambda>p. re_search p log_content \<noteq> None) ps"
  let ?r = "initial_result\<lparr>log_snippet := join [nl] (take 10 (extract_error_lines log_content))\<rparr>"
  from assms(2) obtain ps rest' where f: "filter ?P PATTERNS = (ft, ps) # rest'"
    by (auto simp: matching_categories_def)
  then have "(ft, ps) \<in> set (filter ?P PATTERNS)" by simp
  then have mem: "(ft, ps) \<in> set PATTERNS" by simp
  then have look: "map_of PATTERNS ft = Some ps" using PATTERNS_distinct by simp
  from try_table_first [OF f, of ?r] obtain m where fm: "first_match ps log_content = Some m"
    and tt: "try_table PATTERNS log_content ?r = Some (on_match ft m ?r)" by blast
  from first_match_mem [OF fm] obtain p where p: "p \<in> set ps" and rs: "re_search p log_content = Some m"
    by blast
  have "groups m \<noteq> []" if "ft = MODULE_NOT_FOUND \<or> ft = BROKEN_PATH"
    using PATTERNS_groups [OF mem p that] re_search_groups [OF rs] by blast
  from on_match_groups [of ft m ?r, OF this] obtain d where d: "on_match ft m ?r = Inr d"
    "failure_type d = ft" "error_message d = group0 m" "confidence d = 0.9"
    "log_snippet d = log_snippet ?r" by blast
  from PATTERNS_literal [OF mem p] obtain l r where "p = Lit l # r" "l \<noteq> []" by blast
  with rs have ne: "group0 m \<noteq> []" using re_search_group0 [of l r log_content m] by simp
  from assms(1) tt d(1) have "analyze log_content = Inr d" by (simp add: analyze_def Let_def)
  with look fm d ne PATTERNS_not_unknown [OF mem] show ?thesis by simp
qed

lemma filter_range: "filter (\<lambda>j. a \<le> j \<and> j < b) [0..<n] = [a..<min b n]"
proof (induction n)
  case 0
  then show ?case by simp
next
  case (Suc n)
  consider "n < a" | "a \<le> n" "n < b" | "a \<le> n" "b \<le> n" by linarith
  then show ?case
  proof cases
    case 1
    with Suc show ?thesis by (simp add: min_def)
  next
    case 2
    then have "min b (Suc n) = Suc n" "min b n = n" by simp_all
    with Suc 2 show ?thesis by simp
  next
    case 3
    then have "min b (Suc n) = b" "min b n = b" by simp_all
    with Suc 3 show ?thesis by simp
  qed
qed

lemma take_drop_nth: "b \<le> length xs \<Longrightarrow> take (b - a) (drop a xs) = map ((!) xs) [a..<b]"
  by (rule nth_equalityI) auto

lemma contains_iff: "contains sub s \<longleftrightarrow> (\<exists>u v. s = u @ sub @ v)"
proof (induction s)
  case Nil
  then show ?case by auto
next
  case (Cons x xs)
  note IH = Cons.IH
  have sw: "starts_with (x # xs) sub \<longleftrightarrow> (\<exists>v. x # xs = sub @ v)"
    unfolding starts_with_def by (metis append_eq_conv_conj append_take_drop_id)
  show ?case
  proof
    assume "contains sub (x # xs)"
    then consider "starts_with (x # xs) sub" | "contains sub xs" by auto
    then show "\<exists>u v. x # xs = u @ sub @ v"
    proof cases
      case 1
      with sw obtain v where "x # xs = sub @ v" by blast
      then have "x # xs = [] @ sub @ v" by simp
      then show ?thesis by blast
    next
      case 2
      with IH obtain u v where "xs = u @ sub @ v" by blast
      then have "x # xs = (x # u) @ sub @ v" by simp
      then show ?thesis by blast
    qed
  next
    assume "\<exists>u v. x # xs = u @ sub @ v"
    then obtain u v where uv: "x # xs = u @ sub @ v" by blast
    show "contains sub (x # xs)"
    proof (cases u)
      case Nil
      with uv have "x # xs = sub @ v" by simp
      with sw have "starts_with (x # xs) sub" by blast
      then show ?thesis by simp
    next
      case (Cons y u')
      with uv have "xs = u' @ sub @ v" by simp
      with IH show ?thesis by auto
    qed
  qed
qed


lemma extract_loop_skip:
  "\<forall>(i, l) \<in> set es. \<not> has_keyword l \<Longrightarrow> extract_loop lines es acc = acc"
  by (induction es arbitrary: acc) auto

lemma extract_loop_eq:
  "extract_loop lines es acc =
     acc @ concat (map (\<lambda>(i, l). if has_keyword l
                                   then py_slice lines (max 0 (int i - 2)) (min (int (length lines)) (int i + 6))
                                   else []) es)"
  by (induction es arbitrary: acc) (auto simp: Let_def)

lemma py_slice_window:
  "py_slice lines (max 0 (int i - 2)) (min (int (length lines)) (int i + 6)) = window lines i"
proof -
  have p: "(\<lambda>j. int i - 2 \<le> int j \<and> int j < int i + 6) = (\<lambda>j. i - 2 \<le> j \<and> j < i + 6)"
    by (rule ext) auto
  have s: "nat (max 0 (int i - 2)) = i - 2" by simp
  have e: "nat (min (int (length lines)) (int i + 6)) = min (i + 6) (length lines)" by simp
  have "window lines i = map ((!) lines) [i - 2..<min (i + 6) (length lines)]"
    unfolding window_def p filter_range ..
  also have "\<dots> = take (min (i + 6) (length lines) - (i - 2)) (drop (i - 2) lines)"
    by (rule take_drop_nth [symmetric]) simp
  finally show ?thesis unfolding py_slice_def s e by simp
qed

lemma map_enumerate_nth:
  "map (\<lambda>(i, l). g i l) (enumerate 0 xs) = map (\<lambda>i. g i (xs ! i)) [0..<length xs]"
  by (rule nth_equalityI) (auto simp: nth_enumerate_eq)

lemma concat_map_if:
  "concat (map (\<lambda>i. if Q i then f i else []) ixs) = concat (map f (filter Q ixs))"
  by (induction ixs) auto

lemma extract_eq_context: "extract_error_lines log_content = context_lines log_content"
proof -
  let ?lines = "split_on nl log_content"
  have "extract_error_lines log_content =
          concat (map (\<lambda>(i, l). if has_keyword l then window ?lines i else []) (enumerate 0 ?lines))"
    unfolding extract_error_lines_def Let_def extract_loop_eq py_slice_window by simp
  also have "\<dots> = concat (map (\<lambda>i. if has_keyword (?lines ! i) then window ?lines i else [])
                              [0..<length ?lines])"
    by (simp only: map_enumerate_nth [of "\<lambda>i l. if has_keyword l then window ?lines i else []"])
  also have "\<dots> = context_lines log_content"
    by (simp add: context_lines_def Let_def concat_map_if)
  finally show ?thesis .
qed

text \<open>Splitting and joining.\<close>

lemma split_on_nonempty: "split_on c s \<noteq> []"
  by (induction s) (auto split: list.splits)

lemma split_on_no_sep: "l \<in> set (split_on c s) \<Longrightarrow> c \<notin> set l"
proof (induction s arbitrary: l)
  case Nil
  then show ?case by simp
next
  case (Cons x xs)
  then show ?case
    by (cases "split_on c xs") (auto split: if_splits)
qed

lemma split_on_plain: "c \<notin> set l \<Longrightarrow> split_on c l = [l]"
  by (induction l) auto

lemma split_on_append:
  "c \<notin> set l \<Longrightarrow> split_on c (l @ c # s) = l # split_on c s"
  by (induction l) auto

lemma split_join:
  "xs \<noteq> [] \<Longrightarrow> \<forall>l \<in> set xs. c \<notin> set l \<Longrightarrow> split_on c (join [c] xs) = xs"
proof (induction "[c]" xs rule: join.induct)
  case 1
  then show ?case by simp
next
  case (2 x)
  then show ?case by (simp add: split_on_plain)
next
  case (3 x y ys)
  then show ?case by (simp add: split_on_append)
qed

lemma window_lines: "l \<in> set (window lines i) \<Longrightarrow> l \<in> set lines"
  by (auto simp: window_def)

lemma context_lines_no_nl: "l \<in> set (context_lines log_content) \<Longrightarrow> nl \<notin> set l"
  by (auto simp: context_lines_def Let_def dest!: window_lines split_on_no_sep)

lemma analyze_snippet:
  "\<exists>d. analyze log_content = Inr d
      \<and> log_snippet d = join [nl] (take 10 (extract_error_lines log_content))"
proof (cases "extract_error_lines log_content = []")
  case True
  then show ?thesis by (simp add: analyze_no_lines initial_result_def)
next
  case False
  show ?thesis
  proof (cases "matching_categories log_content")
    case Nil
    from analyze_no_match [OF False Nil] show ?thesis by simp
  next
    case (Cons ft rest)
    from analyze_match [OF False Cons] show ?thesis by auto
  qed
qed

lemma has_keyword_iff:
  "has_keyword line \<longleftrightarrow> (\<exists>k \<in> set error_keywords. \<exists>u v. lower line = u @ k @ v)"
  by (simp add: has_keyword_def list_ex_iff contains_iff)

lemma window_self: "i < length lines \<Longrightarrow> lines ! i \<in> set (window lines i)"
  by (auto simp: window_def)

lemma extract_error_lines_empty_iff:
  "extract_error_lines log_content = [] \<longleftrightarrow>
     (\<forall>line \<in> set (split_on nl log_content). \<not> has_keyword line)"
proof
  assume e: "extract_error_lines log_content = []"
  show "\<forall>line \<in> set (split_on nl log_content). \<not> has_keyword line"
  proof
    fix line
    assume "line \<in> set (split_on nl log_content)"
    then obtain i where i: "i < length (split_on nl log_content)"
      and l: "split_on nl log_content ! i = line"
      by (auto simp: in_set_conv_nth)
    show "\<not> has_keyword line"
    proof
      assume "has_keyword line"
      with i l have "line \<in> set (context_lines log_content)"
        using window_self [OF i] by (auto simp: context_lines_def Let_def)
      with e show False by (simp add: extract_eq_context)
    qed
  qed
next
  assume "\<forall>line \<in> set (split_on nl log_content). \<not> has_keyword line"
  then have "\<forall>(i, l) \<in> set (enumerate 0 (split_on nl log_content)). \<not> has_keyword l"
    by (auto simp: in_set_enumerate_eq)
  then show "extract_error_lines log_content = []"
    by (simp add: extract_error_lines_def Let_def extract_loop_skip)
qed

section \<open>Claims about the log analyzer\<close>

text \<open>
  Claim C1, as amended. Whenever the log has a keyword line and some pattern of the table
  matches the log, \<open>analyze\<close> returns the first category, in the order of the table
  (MODULE_NOT_FOUND, IMPORT_ERROR, MISSING_DEPENDENCY, BROKEN_PATH, SYNTAX_ERROR), that
  has a matching pattern, and the error message is the text matched by the first listed
  pattern of that category that matches. Nothing in the statement depends on the offset
  at which a pattern matches.
\<close>

theorem analyze_table_order:
  assumes "extract_error_lines log_content \<noteq> []" and "matching_categories log_content \<noteq> []"
  shows "\<exists>d ps m. analyze log_content = Inr d
            \<and> failure_type d = hd (matching_categories log_content)
            \<and> map_of PATTERNS (failure_type d) = Some ps
            \<and> first_match ps log_content = Some m
            \<and> error_message d = group0 m"
proof -
  from assms(2) obtain ft rest where "matching_categories log_content = ft # rest"
    by (cases "matching_categories log_content") auto
  from analyze_match [OF assms(1) this] this show ?thesis by auto
qed

text \<open>
  A log in which a SYNTAX_ERROR pattern matches at offset 0 and a MODULE_NOT_FOUND
  pattern matches only later: the table order decides.
\<close>

theorem analyze_table_order_witness:
  "extract_error_lines (''SyntaxError: x'' @ [nl] @ ''ModuleNotFoundError: No module named '' @ [sq] @ ''ab'' @ [sq]) \<noteq> []
   \<and> matching_categories (''SyntaxError: x'' @ [nl] @ ''ModuleNotFoundError: No module named '' @ [sq] @ ''ab'' @ [sq])
       = [MODULE_NOT_FOUND, SYNTAX_ERROR]
   \<and> (\<exists>d. analyze (''SyntaxError: x'' @ [nl] @ ''ModuleNotFoundError: No module named '' @ [sq] @ ''ab'' @ [sq]) = Inr d
        \<and> failure_type d = MODULE_NOT_FOUND)"
proof -
  let ?L = "''SyntaxError: x'' @ [nl] @ ''ModuleNotFoundError: No module named '' @ [sq] @ ''ab'' @ [sq]"
  have h1: "extract_error_lines ?L \<noteq> []" by code_simp
  have h2: "matching_categories ?L = [MODULE_NOT_FOUND, SYNTAX_ERROR]" by code_simp
  then have h3: "matching_categories ?L \<noteq> []" by simp
  from analyze_table_order [OF h1 h3] h1 h2 show ?thesis by auto
qed

text \<open>
  Claim C1 as stated does not hold: in the log below patterns of two categories match
  (the first in table order is MODULE_NOT_FOUND), but no line has a keyword, so
  \<open>analyze\<close> returns the UNKNOWN diagnosis before it looks at any pattern.
\<close>

theorem analyze_table_order_counterexample:
  "1 < length (matching_categories
         (''cannot import name '' @ [sq] @ ''a'' @ [sq, nl] @ ''No matching distribution found for b''))
   \<and> hd (matching_categories
         (''cannot import name '' @ [sq] @ ''a'' @ [sq, nl] @ ''No matching distribution found for b''))
       = MODULE_NOT_FOUND
   \<and> analyze (''cannot import name '' @ [sq] @ ''a'' @ [sq, nl] @ ''No matching distribution found for b'')
       = Inr \<lparr>failure_type = UNKNOWN, error_message = [], details = [], confidence = 0,
              log_snippet = []\<rparr>"
  by code_simp

text \<open>
  Claim C5. A log none of whose lines contains, after lower-casing, one of the keywords
  error, failed, exception, traceback, modulenotfounderror is diagnosed as UNKNOWN with
  confidence 0, empty error message, empty details and empty snippet.
\<close>

theorem analyze_no_keyword:
  assumes "\<forall>line \<in> set (split_on nl log_content). \<forall>k \<in> set error_keywords.
             \<not> (\<exists>u v. lower line = u @ k @ v)"
  shows "analyze log_content =
           Inr \<lparr>failure_type = UNKNOWN, error_message = [], details = [], confidence = 0,
                log_snippet = []\<rparr>"
proof -
  from assms have "\<forall>line \<in> set (split_on nl log_content). \<not> has_keyword line"
    by (auto simp: has_keyword_def list_ex_iff contains_iff)
  then have "\<forall>(i, l) \<in> set (enumerate 0 (split_on nl log_content)). \<not> has_keyword l"
    by (auto simp: in_set_enumerate_eq)
  then have "extract_error_lines log_content = []"
    by (simp add: extract_error_lines_def Let_def extract_loop_skip)
  then show ?thesis by (simp add: analyze_no_lines initial_result_def)
qed

theorem analyze_no_keyword_witness:
  "list_all (\<lambda>line. list_all (\<lambda>k. \<not> contains k (lower line)) error_keywords)
            (split_on nl (''build ok'' @ [nl] @ ''done''))
   \<and> analyze (''build ok'' @ [nl] @ ''done'') =
           Inr \<lparr>failure_type = UNKNOWN, error_message = [], details = [], confidence = 0,
                log_snippet = []\<rparr>"
proof -
  have e: "list_all (\<lambda>line. list_all (\<lambda>k. \<not> contains k (lower line)) error_keywords)
            (split_on nl (''build ok'' @ [nl] @ ''done''))"
    by code_simp
  then have h: "\<forall>line \<in> set (split_on nl (''build ok'' @ [nl] @ ''done'')). \<forall>k \<in> set error_keywords.
             \<not> (\<exists>u v. lower line = u @ k @ v)"
    unfolding contains_iff [symmetric] list_all_iff .
  from analyze_no_keyword [OF h] e show ?thesis by blast
qed

text \<open>
  Claim C6. The snippet of every diagnosis is the first 10 lines of the windows
  \<open>[i - 2, i + 6)\<close>, clipped to the log, around every keyword line \<open>i\<close>, concatenated in
  line order without removing repetitions (\<open>context_lines\<close>); a log with exactly 11 such
  lines gives a snippet of exactly 10 lines.
\<close>

theorem log_snippet_windows:
  "\<exists>d. analyze log_content = Inr d
      \<and> log_snippet d = join [nl] (take 10 (context_lines log_content))
      \<and> (length (context_lines log_content) = 11 \<longrightarrow> length (split_on nl (log_snippet d)) = 10)"
proof -
  from analyze_snippet [of log_content] obtain d where d: "analyze log_content = Inr d"
    and s: "log_snippet d = join [nl] (take 10 (context_lines log_content))"
    by (auto simp: extract_eq_context)
  have "length (split_on nl (log_snippet d)) = 10" if len: "length (context_lines log_content) = 11"
  proof -
    let ?xs = "take 10 (context_lines log_content)"
    from len have ne: "?xs \<noteq> []" by auto
    have "\<forall>l \<in> set ?xs. nl \<notin> set l"
      by (auto dest!: in_set_takeD context_lines_no_nl)
    from split_join [OF ne this] s len show ?thesis by simp
  qed
  with d s show ?thesis by blast
qed

theorem log_snippet_windows_witness:
  "length (context_lines (''error'' @ [nl] @ ''error'' @ [nl] @ ''x'' @ [nl] @ ''error'')) = 11
   \<and> (\<exists>d. analyze (''error'' @ [nl] @ ''error'' @ [nl] @ ''x'' @ [nl] @ ''error'') = Inr d
        \<and> length (split_on nl (log_snippet d)) = 10)"
proof -
  have h: "length (context_lines (''error'' @ [nl] @ ''error'' @ [nl] @ ''x'' @ [nl] @ ''error'')) = 11"
    by code_simp
  from log_snippet_windows [of "''error'' @ [nl] @ ''error'' @ [nl] @ ''x'' @ [nl] @ ''error''"] h
  show ?thesis by blast
qed

text \<open>
  Claim C7, as amended. Every diagnosis returned by \<open>analyze\<close> has a non-empty error
  message unless its category is UNKNOWN. Its confidence is 0.0 when no line of the log
  contains, after lower-casing, one of the keywords, whether or not a pattern matches the
  log; when some line contains a keyword it is 0.9 if a pattern of the table matches the
  log and 0.3 if none does. So it lies in [0, 1].
\<close>

theorem analyze_invariant:
  "\<exists>d. analyze log_content = Inr d
      \<and> (failure_type d \<noteq> UNKNOWN \<longrightarrow> error_message d \<noteq> [])
      \<and> confidence d =
          (if \<not> (\<exists>line \<in> set (split_on nl log_content). \<exists>k \<in> set error_keywords.
                    \<exists>u v. lower line = u @ k @ v)
           then 0.0
           else if matching_categories log_content \<noteq> [] then 0.9 else 0.3)
      \<and> 0 \<le> confidence d \<and> confidence d \<le> 1"
proof -
  have kw: "extract_error_lines log_content = [] \<longleftrightarrow>
              \<not> (\<exists>line \<in> set (split_on nl log_content). \<exists>k \<in> set error_keywords.
                    \<exists>u v. lower line = u @ k @ v)"
    unfolding extract_error_lines_empty_iff has_keyword_iff by blast
  show ?thesis
  proof (cases "extract_error_lines log_content = []")
    case True
    with kw show ?thesis by (simp add: analyze_no_lines initial_result_def)
  next
    case False
    show ?thesis
    proof (cases "matching_categories log_content")
      case Nil
      from analyze_no_match [OF False Nil] False Nil kw show ?thesis
        by (simp add: initial_result_def)
    next
      case (Cons ft rest)
      from analyze_match [OF False Cons] obtain d where
        "analyze log_content = Inr d" "failure_type d = ft" "error_message d \<noteq> []"
        "confidence d = 0.9" by blast
      with False Cons kw show ?thesis by simp
    qed
  qed
qed

text \<open>
  The three cases: a keyword line and a matching pattern, a keyword line and no matching
  pattern, no keyword line.
\<close>

theorem analyze_invariant_witness:
  "(\<exists>d. analyze ''error: externally-managed-environment'' = Inr d
        \<and> failure_type d \<noteq> UNKNOWN \<and> error_message d \<noteq> [] \<and> confidence d = 0.9)
   \<and> (\<exists>d. analyze ''the build failed'' = Inr d \<and> confidence d = 0.3)
   \<and> (\<exists>d. analyze ''build ok'' = Inr d \<and> confidence d = 0)"
proof -
  define A where "A = ''error: externally-managed-environment''"
  define B where "B = ''the build failed''"
  define C where "C = ''build ok''"
  have "list_ex (\<lambda>line. list_ex (\<lambda>k. contains k (lower line)) error_keywords)
          (split_on nl ''error: externally-managed-environment'')"
    by code_simp
  then have a2: "\<exists>line \<in> set (split_on nl A). \<exists>k \<in> set error_keywords. \<exists>u v. lower line = u @ k @ v"
    unfolding list_ex_iff contains_iff A_def .
  have a3: "matching_categories A = [MISSING_DEPENDENCY]" unfolding A_def by code_simp
  have a4: "case analyze A of Inl e \<Rightarrow> False | Inr d \<Rightarrow> failure_type d \<noteq> UNKNOWN"
    unfolding A_def by code_simp
  from analyze_invariant [of A] obtain d where
    d: "analyze A = Inr d" "failure_type d \<noteq> UNKNOWN \<longrightarrow> error_message d \<noteq> []"
    "confidence d =
       (if \<not> (\<exists>line \<in> set (split_on nl A). \<exists>k \<in> set error_keywords. \<exists>u v. lower line = u @ k @ v)
        then 0.0 else if matching_categories A \<noteq> [] then 0.9 else 0.3)"
    by blast
  from d(3) a2 a3 have "confidence d = 0.9" by simp
  moreover from a4 d(1) have "failure_type d \<noteq> UNKNOWN" by simp
  ultimately have RA: "\<exists>d. analyze A = Inr d \<and> failure_type d \<noteq> UNKNOWN \<and> error_message d \<noteq> []
                          \<and> confidence d = 0.9"
    using d(1,2) by blast
  have "list_ex (\<lambda>line. list_ex (\<lambda>k. contains k (lower line)) error_keywords)
          (split_on nl ''the build failed'')"
    by code_simp
  then have b2: "\<exists>line \<in> set (split_on nl B). \<exists>k \<in> set error_keywords. \<exists>u v. lower line = u @ k @ v"
    unfolding list_ex_iff contains_iff B_def .
  have b3: "matching_categories B = []" unfolding B_def by code_simp
  from analyze_invariant [of B] obtain d' where
    d': "analyze B = Inr d'"
    "confidence d' =
       (if \<not> (\<exists>line \<in> set (split_on nl B). \<exists>k \<in> set error_keywords. \<exists>u v. lower line = u @ k @ v)
        then 0.0 else if matching_categories B \<noteq> [] then 0.9 else 0.3)"
    by blast
  from d'(2) b2 b3 have "confidence d' = 0.3" by simp
  with d'(1) have RB: "\<exists>d. analyze B = Inr d \<and> confidence d = 0.3" by blast
  have "\<not> list_ex (\<lambda>line. list_ex (\<lambda>k. contains k (lower line)) error_keywords)
          (split_on nl ''build ok'')"
    by code_simp
  then have c2: "\<not> (\<exists>line \<in> set (split_on nl C). \<exists>k \<in> set error_keywords. \<exists>u v. lower line = u @ k @ v)"
    unfolding list_ex_iff contains_iff C_def .
  from analyze_invariant [of C] obtain d'' where
    d'': "analyze C = Inr d''"
    "confidence d'' =
       (if \<not> (\<exists>line \<in> set (split_on nl C). \<exists>k \<in> set error_keywords. \<exists>u v. lower line = u @ k @ v)
        then 0.0 else if matching_categories C \<noteq> [] then 0.9 else 0.3)"
    by blast
  from d''(2) c2 have "confidence d'' = 0" by simp
  with d''(1) have RC: "\<exists>d. analyze C = Inr d \<and> confidence d = 0" by blast
  from RA RB RC show ?thesis unfolding A_def B_def C_def by blast
qed

text \<open>
  A pattern of MODULE_NOT_FOUND matches the log \<open>cannot import name 'parse'\<close>, which has no
  keyword line: the confidence is 0.0, not 0.9, and the category is UNKNOWN.
\<close>

theorem analyze_invariant_counterexample:
  "matching_categories (''cannot import name '' @ [sq] @ ''parse'' @ [sq]) = [MODULE_NOT_FOUND]
   \<and> analyze (''cannot import name '' @ [sq] @ ''parse'' @ [sq]) =
       Inr \<lparr>failure_type = UNKNOWN, error_message = [], details = [], confidence = 0,
            log_snippet = []\<rparr>"
proof -
  have m: "matching_categories (''cannot import name '' @ [sq] @ ''parse'' @ [sq]) = [MODULE_NOT_FOUND]"
    by code_simp
  have a: "analyze (''cannot import name '' @ [sq] @ ''parse'' @ [sq]) =
       Inr \<lparr>failure_type = UNKNOWN, error_message = [], details = [], confidence = 0,
            log_snippet = []\<rparr>"
    by code_simp
  from m a show ?thesis by (rule conjI)
qed

section \<open>File location\<close>

text \<open>
  The branches of \<^verbatim>\<open>_locate_affected_file\<close>: the diff is fetched only when the details have
  \<open>missing_module\<close>, and its first match is the answer; otherwise the traceback of the
  snippet is searched, and the path found loses every leading dot and slash. When nothing
  is located the run ends with the \<open>file_not_found\<close> result.
\<close>

lemma locate_affected_file_diff:
  assumes "map_of (details d) ''missing_module'' = Some m"
    and "get_pr_diff (github self) owner repo pr_number = Inr diff"
    and "re_findall DIFF_FILE diff 0 = f # fs"
  shows "locate_affected_file self owner repo pr_number d tr =
           (tr @ [GetPRDiff owner repo pr_number], Inr (Some f))"
  using assms by (simp add: locate_affected_file_def Let_def)

lemma locate_affected_file_diff_empty:
  assumes "map_of (details d) ''missing_module'' = Some m"
    and "get_pr_diff (github self) owner repo pr_number = Inr diff"
    and "re_findall DIFF_FILE diff 0 = []"
  shows "locate_affected_file self owner repo pr_number d tr =
           (tr @ [GetPRDiff owner repo pr_number], stack_trace_file d)"
  using assms by (simp add: locate_affected_file_def Let_def)

lemma locate_affected_file_no_module:
  assumes "map_of (details d) ''missing_module'' = None"
  shows "locate_affected_file self owner repo pr_number d tr = (tr, stack_trace_file d)"
  using assms by (simp add: locate_affected_file_def)

lemma stack_trace_file_found:
  assumes "re_search TRACE_FILE (log_snippet d) = Some file_match"
    and "group1 file_match = Inr g"
  shows "stack_trace_file d = Inr (Some (dropWhile (\<lambda>c. c = CHR ''.'' \<or> c = CHR ''/'') g))"
proof -
  have "(\<lambda>c. c \<in> set ''./'') = (\<lambda>c. c = CHR ''.'' \<or> c = CHR ''/'')" by auto
  with assms show ?thesis by (simp add: stack_trace_file_def Let_def lstrip_def)
qed

lemma stack_trace_file_none:
  assumes "re_search TRACE_FILE (log_snippet d) = None"
  shows "stack_trace_file d = Inr None"
  using assms by (simp add: stack_trace_file_def Let_def)

lemma process_pr_failure_file_not_found:
  assumes info: "get_pr_info (github self) owner repo pr_number = Inr pr_info"
    and checks: "get_pr_checks (github self) owner repo pr_number = Inr check_runs"
    and failed: "filter (\<lambda>c. map_of c ''conclusion'' = Some (JStr ''failure'')) check_runs = check # rest"
    and cid: "map_of check ''id'' = Some check_id"
    and cname: "map_of check ''name'' = Some check_name"
    and logs: "get_check_logs (github self) owner repo check_id = Inr logs"
    and diag: "analyze logs = Inr d"
    and high: "\<not> confidence d < confidence_threshold self"
    and loc: "locate_affected_file self owner repo pr_number d
                [GetPRInfo owner repo pr_number, GetPRChecks owner repo pr_number,
                 GetCheckLogs owner repo check_id, Analyze logs] = (tr, Inr None)"
  shows "process_pr_failure self owner repo pr_number =
           (tr, Inr (FileNotFound d ''Could not locate the affected file''))"
  by (simp add: process_pr_failure_def info checks failed dict_item_def cid cname logs diag high loc Let_def)

section \<open>Claims about the fix generator\<close>

text \<open>
  Claim C3. For a MISSING_DEPENDENCY diagnosis whose details give \<open>package_name = p\<close>,
  \<open>generate_fix\<close> returns, whatever the generator, the file content and the file path
  are, the proposal with fix type \<open>add_dependency\<close>, exactly one change, an insert into
  \<open>requirements.txt\<close> at line number \<open>-1\<close> with new content \<open>p\<close> followed by a line
  break, and confidence \<open>0.85\<close>; the trace of calls is the one it was given, so the
  completion service is not called.
\<close>

theorem missing_dependency_fix:
  assumes "map_of error_details ''package_name'' = Some p"
  shows "generate_fix self MISSING_DEPENDENCY error_details file_content file_path tr =
           (tr, Inr (JObj
             [(''fix_type'', JStr ''add_dependency''),
              (''changes'', JArr [JObj
                 [(''file'', JStr ''requirements.txt''),
                  (''action'', JStr ''insert''),
                  (''line_number'', JInt (- 1)),
                  (''old_content'', JStr []),
                  (''new_content'', JStr (p @ [nl]))]]),
              (''explanation'',
                 JStr (''Add missing dependency '' @ [sq] @ p @ [sq] @ '' to requirements.txt'')),
              (''confidence'', JFloat 0.85)]))"
  using assms by (simp add: generate_fix_def fix_missing_dependency_def dict_get_def)

text \<open>The package \<open>numpy\<close>.\<close>

theorem missing_dependency_fix_witness:
  "generate_fix \<lparr>client = canned [], model = ''gpt-4-turbo-preview''\<rparr> MISSING_DEPENDENCY
       [(''package_name'', ''numpy'')] [] ''requirements.txt'' [] =
           ([], Inr (JObj
             [(''fix_type'', JStr ''add_dependency''),
              (''changes'', JArr [JObj
                 [(''file'', JStr ''requirements.txt''),
                  (''action'', JStr ''insert''),
                  (''line_number'', JInt (- 1)),
                  (''old_content'', JStr []),
                  (''new_content'', JStr (''numpy'' @ [nl]))]]),
              (''explanation'',
                 JStr (''Add missing dependency '' @ [sq] @ ''numpy'' @ [sq] @ '' to requirements.txt'')),
              (''confidence'', JFloat 0.85)]))"
proof -
  have h: "map_of [(''package_name'', ''numpy'')] ''package_name'' = Some ''numpy''" by simp
  show ?thesis by (rule missing_dependency_fix [OF h])
qed

text \<open>
  Claim C10. For a MISSING_DEPENDENCY diagnosis whose details have no \<open>package_name\<close>,
  \<open>generate_fix\<close> still returns an \<open>add_dependency\<close> proposal without calling the
  completion service: its one change is an insert whose new content is a bare line
  break, the package name of the explanation is empty, and the confidence is \<open>0.85\<close>.
\<close>

theorem missing_package_name_fix:
  assumes "map_of error_details ''package_name'' = None"
  shows "generate_fix self MISSING_DEPENDENCY error_details file_content file_path tr =
           (tr, Inr (JObj
             [(''fix_type'', JStr ''add_dependency''),
              (''changes'', JArr [JObj
                 [(''file'', JStr ''requirements.txt''),
                  (''action'', JStr ''insert''),
                  (''line_number'', JInt (- 1)),
                  (''old_content'', JStr []),
                  (''new_content'', JStr [nl])]]),
              (''explanation'',
                 JStr (''Add missing dependency '' @ [sq] @ [sq] @ '' to requirements.txt'')),
              (''confidence'', JFloat 0.85)]))"
  using assms by (simp add: generate_fix_def fix_missing_dependency_def dict_get_def)

text \<open>
  The log \<open>error: externally-managed-environment\<close> is diagnosed by the pattern without a
  group: MISSING_DEPENDENCY with empty details.
\<close>

theorem missing_package_name_fix_witness:
  "\<exists>d. analyze ''error: externally-managed-environment'' = Inr d
      \<and> failure_type d = MISSING_DEPENDENCY
      \<and> map_of (details d) ''package_name'' = None
      \<and> generate_fix \<lparr>client = canned [], model = ''gpt-4-turbo-preview''\<rparr> (failure_type d)
           (details d) [] ''requirements.txt'' [] =
           ([], Inr (JObj
             [(''fix_type'', JStr ''add_dependency''),
              (''changes'', JArr [JObj
                 [(''file'', JStr ''requirements.txt''),
                  (''action'', JStr ''insert''),
                  (''line_number'', JInt (- 1)),
                  (''old_content'', JStr []),
                  (''new_content'', JStr [nl])]]),
              (''explanation'',
                 JStr (''Add missing dependency '' @ [sq] @ [sq] @ '' to requirements.txt'')),
              (''confidence'', JFloat 0.85)]))"
proof -
  have a: "analyze ''error: externally-managed-environment'' =
             Inr \<lparr>failure_type = MISSING_DEPENDENCY,
                  error_message = ''error: externally-managed-environment'',
                  details = [], confidence = 0.9,
                  log_snippet = ''error: externally-managed-environment''\<rparr>"
    by code_simp
  have h: "map_of ([] :: string dict) ''package_name'' = None" by simp
  from missing_package_name_fix [OF h] a show ?thesis by simp
qed






section \<open>Claims about the orchestrator\<close>

text \<open>
  Claim C9. When the service answers both queries and no check run has the conclusion
  \<open>failure\<close>, \<open>process_pr_failure\<close> returns the \<open>no_failures\<close> result with its message,
  and the calls it has made are the two queries: the analyzer is not called, and no
  logs, diff or file are fetched, no completion is asked for and no comment is posted.
\<close>

theorem no_failed_checks:
  assumes info: "get_pr_info (github self) owner repo pr_number = Inr pr_info"
    and checks: "get_pr_checks (github self) owner repo pr_number = Inr check_runs"
    and none: "list_all (\<lambda>c. map_of c ''conclusion'' \<noteq> Some (JStr ''failure'')) check_runs"
  shows "process_pr_failure self owner repo pr_number =
           ([GetPRInfo owner repo pr_number, GetPRChecks owner repo pr_number],
            Inr (NoFailures ''No failed CI checks found''))"
proof -
  have "filter (\<lambda>c. map_of c ''conclusion'' = Some (JStr ''failure'')) check_runs = []"
    using none by (simp add: list_all_iff filter_empty_conv)
  then show ?thesis
    by (simp add: process_pr_failure_def info checks Let_def)
qed

text \<open>A pull request with one successful check and one check that has not concluded.\<close>

theorem no_failed_checks_witness:
  "process_pr_failure
     (fake_agent
        (fake_github [(''title'', JStr ''Add parser'')]
           [[(''id'', JInt 1), (''name'', JStr ''lint''), (''conclusion'', JStr ''success'')],
            [(''id'', JInt 2), (''name'', JStr ''tests''), (''conclusion'', JNull)]]
           ''ModuleNotFoundError: No module named 'requests' '' [] [])
        ''{}'')
     ''octo'' ''demo'' 7 =
   ([GetPRInfo ''octo'' ''demo'' 7, GetPRChecks ''octo'' ''demo'' 7],
    Inr (NoFailures ''No failed CI checks found''))"
proof (rule no_failed_checks [where pr_info = "[(''title'', JStr ''Add parser'')]"])
  show "list_all (\<lambda>c. map_of c ''conclusion'' \<noteq> Some (JStr ''failure''))
          [[(''id'', JInt 1), (''name'', JStr ''lint''), (''conclusion'', JStr ''success'')],
           [(''id'', JInt 2), (''name'', JStr ''tests''), (''conclusion'', JNull)]]"
    by code_simp
qed (simp_all add: fake_agent_def fake_github_def)

text \<open>
  Claim C4. When the diagnosis of the logs of the first failed check has a confidence
  strictly below the threshold of the agent, \<open>process_pr_failure\<close> returns the
  \<open>low_confidence\<close> result with that diagnosis, and the calls it has made are the two
  queries, the fetch of the logs and the analysis: the fix generator is not called, no
  diff or file is fetched, no completion is asked for and no comment is posted.
\<close>

theorem low_confidence_stops:
  assumes info: "get_pr_info (github self) owner repo pr_number = Inr pr_info"
    and checks: "get_pr_checks (github self) owner repo pr_number = Inr check_runs"
    and failed: "filter (\<lambda>c. map_of c ''conclusion'' = Some (JStr ''failure'')) check_runs = check # rest"
    and cid: "map_of check ''id'' = Some check_id"
    and cname: "map_of check ''name'' = Some check_name"
    and logs: "get_check_logs (github self) owner repo check_id = Inr logs"
    and diag: "analyze logs = Inr d"
    and low: "confidence d < confidence_threshold self"
  shows "process_pr_failure self owner repo pr_number =
           ([GetPRInfo owner repo pr_number, GetPRChecks owner repo pr_number,
             GetCheckLogs owner repo check_id, Analyze logs],
            Inr (LowConfidence d ''Unable to confidently diagnose the failure''))"
  by (simp add: process_pr_failure_def info checks failed dict_item_def cid cname logs diag low Let_def)

text \<open>
  The log \<open>the build failed\<close> has a keyword line and matches no pattern, so its confidence
  is \<open>0.3\<close>, below the default threshold \<open>0.7\<close>.
\<close>

theorem low_confidence_stops_witness:
  "confidence_threshold
     (fake_agent
        (fake_github [(''title'', JStr ''Add parser'')]
           [[(''id'', JInt 1), (''name'', JStr ''lint''), (''conclusion'', JStr ''success'')],
            [(''id'', JInt 2), (''name'', JStr ''tests''), (''conclusion'', JStr ''failure'')]]
           ''the build failed'' [] [])
        ''{}'') = 0.7
   \<and> process_pr_failure
     (fake_agent
        (fake_github [(''title'', JStr ''Add parser'')]
           [[(''id'', JInt 1), (''name'', JStr ''lint''), (''conclusion'', JStr ''success'')],
            [(''id'', JInt 2), (''name'', JStr ''tests''), (''conclusion'', JStr ''failure'')]]
           ''the build failed'' [] [])
        ''{}'')
     ''octo'' ''demo'' 7 =
   ([GetPRInfo ''octo'' ''demo'' 7, GetPRChecks ''octo'' ''demo'' 7,
     GetCheckLogs ''octo'' ''demo'' (JInt 2), Analyze ''the build failed''],
    Inr (LowConfidence
           \<lparr>failure_type = UNKNOWN, error_message = [], details = [], confidence = 0.3,
            log_snippet = ''the build failed''\<rparr>
           ''Unable to confidently diagnose the failure''))"
proof -
  let ?runs = "[[(''id'', JInt 1), (''name'', JStr ''lint''), (''conclusion'', JStr ''success'')],
                [(''id'', JInt 2), (''name'', JStr ''tests''), (''conclusion'', JStr ''failure'')]]"
  let ?A = "fake_agent (fake_github [(''title'', JStr ''Add parser'')] ?runs ''the build failed'' [] []) ''{}''"
  have a: "analyze ''the build failed'' =
             Inr \<lparr>failure_type = UNKNOWN, error_message = [], details = [], confidence = 0.3,
                  log_snippet = ''the build failed''\<rparr>"
    by code_simp
  have t: "confidence_threshold ?A = 0.7"
    by (simp add: fake_agent_def default_confidence_threshold_def)
  have "process_pr_failure ?A ''octo'' ''demo'' 7 =
          ([GetPRInfo ''octo'' ''demo'' 7, GetPRChecks ''octo'' ''demo'' 7,
            GetCheckLogs ''octo'' ''demo'' (JInt 2), Analyze ''the build failed''],
           Inr (LowConfidence
                  \<lparr>failure_type = UNKNOWN, error_message = [], details = [], confidence = 0.3,
                   log_snippet = ''the build failed''\<rparr>
                  ''Unable to confidently diagnose the failure''))"
  proof (rule low_confidence_stops
      [where pr_info = "[(''title'', JStr ''Add parser'')]" and check_runs = ?runs
         and check = "[(''id'', JInt 2), (''name'', JStr ''tests''), (''conclusion'', JStr ''failure'')]"
         and rest = "[]" and check_name = "JStr ''tests''"])
    show "analyze ''the build failed'' =
             Inr \<lparr>failure_type = UNKNOWN, error_message = [], details = [], confidence = 0.3,
                  log_snippet = ''the build failed''\<rparr>"
      by (rule a)
    show "confidence \<lparr>failure_type = UNKNOWN, error_message = [], details = [], confidence = 0.3,
                  log_snippet = ''the build failed''\<rparr> < confidence_threshold ?A"
      by (simp add: t)
  qed (simp_all add: fake_agent_def fake_github_def)
  with t show ?thesis by simp
qed

text \<open>
  Claim C8. The traceback line \<open>File "./.ci/run.py"\<close> of a SYNTAX_ERROR diagnosis (no
  \<open>missing_module\<close> in the details, so the diff is not fetched): \<open>lstrip('./')\<close> removes
  every leading dot and slash, not the prefix \<open>./\<close>, and the located file is
  \<open>ci/run.py\<close> where the path with a leading \<open>./\<close> stripped is \<open>.ci/run.py\<close>.
\<close>

theorem locate_affected_file_lstrip:
  "analyze (''  File '' @ [dq] @ ''./.ci/run.py'' @ [dq] @ '', line 1'' @ [nl] @ ''SyntaxError: bad'') =
     Inr \<lparr>failure_type = SYNTAX_ERROR, error_message = ''SyntaxError: bad'', details = [],
          confidence = 0.9,
          log_snippet = ''  File '' @ [dq] @ ''./.ci/run.py'' @ [dq] @ '', line 1'' @ [nl] @ ''SyntaxError: bad''\<rparr>
   \<and> locate_affected_file (fake_agent (fake_github [] [] [] [] []) []) ''octo'' ''demo'' 7
       \<lparr>failure_type = SYNTAX_ERROR, error_message = ''SyntaxError: bad'', details = [],
        confidence = 0.9,
        log_snippet = ''  File '' @ [dq] @ ''./.ci/run.py'' @ [dq] @ '', line 1'' @ [nl] @ ''SyntaxError: bad''\<rparr>
       [] = ([], Inr (Some ''ci/run.py''))"
  by code_simp


end
